theory Spec2Isabelle
  imports Main "HOL-Library.Sublist"
begin

section \<open>Text\<close>

text \<open>
  The script \<^verbatim>\<open>delete_emoji_files.py\<close> works on Python strings. A string is modelled
  as a \<^typ>\<open>string\<close>, each \<^typ>\<open>char\<close> standing for one code point in the range 0 to 255.
\<close>

text \<open>
  The character class \<^verbatim>\<open>[0-9A-F]\<close> compiled with \<^verbatim>\<open>re.IGNORECASE\<close>: the decimal
  digits and the letters A to F in either case.
\<close>

definition is_hex :: "char \<Rightarrow> bool" where
  "is_hex c = (c \<in> set ''0123456789ABCDEFabcdef'')"

text \<open>
  White space as \<^verbatim>\<open>\s\<close> and \<^verbatim>\<open>str.strip()\<close> see it on a \<^verbatim>\<open>str\<close>: the code points
  9 to 13, 28 to 32, 133 and 160.
\<close>

definition is_space :: "char \<Rightarrow> bool" where
  "is_space c =
     (of_char c \<in> set [9, 10, 11, 12, 13, 28, 29, 30, 31, 32, 133, 160 :: nat])"

text \<open>\<^verbatim>\<open>str.strip()\<close> without argument removes white space at both ends.\<close>

definition strip :: "string \<Rightarrow> string" where
  "strip s = rev (dropWhile is_space (rev (dropWhile is_space s)))"

text \<open>\<^verbatim>\<open>s.startswith('#')\<close>.\<close>

definition startswith_hash :: "string \<Rightarrow> bool" where
  "startswith_hash s = (case s of [] \<Rightarrow> False | c # _ \<Rightarrow> c = CHR ''#'')"

text \<open>
  \<^verbatim>\<open>str.lower()\<close>, one character at a time: the capital letters A to Z, and the
  capital letters of the range 192 to 222 (215, the multiplication sign, apart), move
  up by 32.
\<close>

definition char_lower :: "char \<Rightarrow> char" where
  "char_lower c =
     (let n = of_char c :: nat
      in if (65 \<le> n \<and> n \<le> 90) \<or> (192 \<le> n \<and> n \<le> 222 \<and> n \<noteq> 215)
         then char_of (n + 32) else c)"

definition lower :: "string \<Rightarrow> string" where
  "lower s = map char_lower s"

text \<open>\<^verbatim>\<open>str(n)\<close> for a length: the decimal digits of a natural number.\<close>

fun str_nat :: "nat \<Rightarrow> string" where
  "str_nat n =
     (if n < 10 then [''0123456789'' ! n]
      else str_nat (n div 10) @ [''0123456789'' ! (n mod 10)])"

declare str_nat.simps [simp del]


section \<open>Paths\<close>

text \<open>
  \<^verbatim>\<open>os.path.join(a, b)\<close> and \<^verbatim>\<open>os.path.basename(p)\<close> of \<^verbatim>\<open>posixpath\<close>:
  \<^verbatim>\<open>
  if b.startswith('/'): path = b
  elif not path or path.endswith('/'): path += b
  else: path += '/' + b
  \<close>
  and \<^verbatim>\<open>p[p.rfind('/') + 1:]\<close>.
\<close>

definition path_join :: "string \<Rightarrow> string \<Rightarrow> string" where
  "path_join a b =
     (if b \<noteq> [] \<and> hd b = CHR ''/'' then b
      else if a = [] \<or> last a = CHR ''/'' then a @ b
      else a @ ''/'' @ b)"

definition basename :: "string \<Rightarrow> string" where
  "basename p = rev (takeWhile (\<lambda>c. c \<noteq> CHR ''/'') (rev p))"


section \<open>The regular expression of the Code Reader\<close>

text \<open>
  \<^verbatim>\<open>hex_pattern = r'(?:^|\s)([0-9A-F]{4,}(?:-[0-9A-F]{4,})*)'\<close>, used with
  \<^verbatim>\<open>re.MULTILINE | re.IGNORECASE\<close>. The matcher is written piece by piece.

  \<^verbatim>\<open>[0-9A-F]{4,}\<close> at the head of \<open>s\<close>: the repeat is greedy, and what follows it in the
  pattern can always match the empty string, so it takes the longest run of hexadecimal
  digits; it fails when that run has fewer than four. The result is the matched text
  and the rest of the input.
\<close>

definition hex_run :: "string \<Rightarrow> (string \<times> string) option" where
  "hex_run s =
     (if 4 \<le> length (takeWhile is_hex s)
      then Some (takeWhile is_hex s, dropWhile is_hex s) else None)"

text \<open>
  \<^verbatim>\<open>(?:-[0-9A-F]{4,})*\<close> at the head of \<open>s\<close>: as many rounds of a hyphen and a run of
  four or more digits as there are; a hyphen that no such run follows is left in the
  input.
\<close>

function hyphen_runs :: "string \<Rightarrow> string \<times> string" where
  "hyphen_runs s =
     (case s of
        [] \<Rightarrow> ([], s)
      | c # r \<Rightarrow>
          if c = CHR ''-'' then
            (case hex_run r of
               None \<Rightarrow> ([], s)
             | Some (h, r') \<Rightarrow>
                 (case hyphen_runs r' of (t, r'') \<Rightarrow> (c # h @ t, r'')))
          else ([], s))"
  by pat_completeness auto
termination
proof (relation "measure length")
  show "wf (measure length)" by simp
next
  fix s :: string and c r x h r'
  assume "s = c # r" "hex_run r = Some x" "(h, r') = x"
  then have "r' = dropWhile is_hex r"
    by (auto simp: hex_run_def split: if_splits)
  then have "length r' \<le> length r"
    by (simp add: length_dropWhile_le)
  with \<open>s = c # r\<close> show "(r', s) \<in> measure length" by simp
qed

declare hyphen_runs.simps [simp del]

text \<open>The capturing group \<^verbatim>\<open>([0-9A-F]{4,}(?:-[0-9A-F]{4,})*)\<close> at the head of \<open>s\<close>.\<close>

definition match_group :: "string \<Rightarrow> (string \<times> string) option" where
  "match_group s =
     (case hex_run s of
        None \<Rightarrow> None
      | Some (h, r) \<Rightarrow> (case hyphen_runs r of (t, r') \<Rightarrow> Some (h @ t, r')))"

text \<open>
  The whole pattern at one position. \<open>bol\<close> says whether the position is at the start
  of the text or right after a line feed, where \<^verbatim>\<open>^\<close> matches under
  \<^verbatim>\<open>re.MULTILINE\<close>. The alternatives are tried in the order of the pattern:
  \<^verbatim>\<open>^\<close> and the group here, then \<^verbatim>\<open>\s\<close> on this character and the group after it.
\<close>

definition match_here :: "bool \<Rightarrow> string \<Rightarrow> (string \<times> string) option" where
  "match_here bol s =
     (case (if bol then match_group s else None) of
        Some m \<Rightarrow> Some m
      | None \<Rightarrow>
          (case s of
             [] \<Rightarrow> None
           | c # r \<Rightarrow> if is_space c then match_group r else None))"

text \<open>
  \<^verbatim>\<open>re.findall\<close> scans from left to right. Where the pattern matches it keeps the text
  of the group and goes on at the end of the match (a match is never empty); elsewhere
  it moves one character on. The position after a character is at a line start when
  that character is a line feed.
\<close>

abbreviation LF :: char where
  "LF \<equiv> CHR 0x0A"

function findall_from :: "bool \<Rightarrow> string \<Rightarrow> string list" where
  "findall_from bol s =
     (case match_here bol s of
        Some (code, rest) \<Rightarrow> code # findall_from (code \<noteq> [] \<and> last code = LF) rest
      | None \<Rightarrow>
          (case s of
             [] \<Rightarrow> []
           | c # r \<Rightarrow> findall_from (c = LF) r))"
  by pat_completeness auto
termination
proof (relation "measure (\<lambda>(bol, s). length s)")
  show "wf (measure (\<lambda>(bol :: bool, s :: string). length s))" by simp
next
  fix bol :: bool and s :: string and c r
  assume "s = c # r"
  then show "((c = LF, r), (bol, s)) \<in> measure (\<lambda>(bol, s). length s)" by simp
next
  fix bol :: bool and s :: string and m code rest
  assume m: "match_here bol s = Some m" "(code, rest) = m"
  have hy: "length (snd (hyphen_runs u)) \<le> length u" for u
  proof (induction u rule: hyphen_runs.induct)
    case (1 u)
    show ?case
    proof (cases u)
      case Nil
      then show ?thesis by (simp add: hyphen_runs.simps)
    next
      case (Cons d v)
      show ?thesis
      proof (cases "d = CHR ''-''")
        case False
        with Cons show ?thesis by (simp add: hyphen_runs.simps)
      next
        case True
        show ?thesis
        proof (cases "hex_run v")
          case None
          with Cons True show ?thesis by (simp add: hyphen_runs.simps)
        next
          case (Some x)
          obtain h v' where x: "x = (h, v')" by (cases x)
          have v': "v' = dropWhile is_hex v"
            using Some x by (auto simp: hex_run_def split: if_splits)
          have "length (snd (hyphen_runs v')) \<le> length v'"
            using "1.IH" [OF Cons True Some x [symmetric]] .
          moreover have "length v' \<le> length v"
            by (simp add: v' length_dropWhile_le)
          moreover have "snd (hyphen_runs u) = snd (hyphen_runs v')"
            using Cons True Some x
            by (subst hyphen_runs.simps) (simp split: prod.splits)
          ultimately show ?thesis using Cons by simp
        qed
      qed
    qed
  qed
  have gr: "length r' < length u" if "match_group u = Some (g, r')" for u g r'
  proof -
    from that obtain h v where hv: "hex_run u = Some (h, v)" and r': "r' = snd (hyphen_runs v)"
      by (auto simp: match_group_def split: option.splits prod.splits)
    from hv have "4 \<le> length (takeWhile is_hex u)" and v: "v = dropWhile is_hex u"
      by (auto simp: hex_run_def split: if_splits)
    moreover have "length (takeWhile is_hex u) + length (dropWhile is_hex u) = length u"
      by (metis length_append takeWhile_dropWhile_id)
    ultimately have "length v < length u" by simp
    with hy [of v] r' show ?thesis by simp
  qed
  from m have "match_here bol s = Some (code, rest)" by simp
  then have "length rest < length s"
    by (auto simp: match_here_def split: option.splits if_splits list.splits
             dest: gr less_SucI)
  then show "((code \<noteq> [] \<and> last code = LF, rest), (bol, s)) \<in> measure (\<lambda>(bol, s). length s)"
    by simp
qed

declare findall_from.simps [simp del]

text \<open>\<^verbatim>\<open>re.findall(hex_pattern, content, re.MULTILINE | re.IGNORECASE)\<close>.\<close>

definition re_findall :: "string \<Rightarrow> string list" where
  "re_findall content = findall_from True content"


section \<open>The file system and the terminal\<close>

text \<open>
  What the script reads and changes: the text of each file by path
  (\<open>file_text\<close>), what \<^verbatim>\<open>os.listdir\<close> returns for a directory (\<open>dir_entries\<close>), the
  paths that the operating system refuses to remove although they exist
  (\<open>undeletable\<close>, a permission error for instance), the text of the exception that
  \<^verbatim>\<open>os.remove\<close> raises for a path (\<open>remove_message\<close>), and what has been written to
  standard output, one entry for each \<^verbatim>\<open>print\<close> call or prompt (\<open>stdout\<close>).
  A path that exists need not open and read as text: it may be a directory, lack the
  read permission, or hold bytes that do not decode. \<open>read_error\<close> gives, for such a
  path, the exception that \<^verbatim>\<open>open\<close> or \<^verbatim>\<open>read\<close> raises. The listing of the
  directory, the writing of the log and \<^verbatim>\<open>print\<close> are taken to succeed.
\<close>

datatype error =
    FileNotFoundError string
  | OSError string
  | UnicodeDecodeError string
  | EOFError

record world =
  file_text :: "string \<Rightarrow> string option"
  read_error :: "string \<Rightarrow> error option"
  dir_entries :: "string \<Rightarrow> string list"
  undeletable :: "string \<Rightarrow> bool"
  remove_message :: "string \<Rightarrow> string"
  stdout :: "string list"

definition print :: "string \<Rightarrow> world \<Rightarrow> world" where
  "print line w = w\<lparr>stdout := stdout w @ [line]\<rparr>"

definition os_path_exists :: "world \<Rightarrow> string \<Rightarrow> bool" where
  "os_path_exists w path = (file_text w path \<noteq> None)"

definition os_listdir :: "world \<Rightarrow> string \<Rightarrow> string list" where
  "os_listdir w directory = dir_entries w directory"

text \<open>
  \<^verbatim>\<open>os.remove(path)\<close> raises when the file is absent or the system refuses; otherwise
  the file is gone afterwards.
\<close>

definition os_remove :: "string \<Rightarrow> world \<Rightarrow> error + world" where
  "os_remove path w =
     (if file_text w path = None \<or> undeletable w path
      then Inl (OSError (remove_message w path))
      else Inr (w\<lparr>file_text := (file_text w)(path := None)\<rparr>))"

text \<open>Opening a file with mode \<^verbatim>\<open>'w'\<close> and writing \<open>text\<close> replaces what it held.\<close>

definition write_file :: "string \<Rightarrow> string \<Rightarrow> world \<Rightarrow> world" where
  "write_file path text w = w\<lparr>file_text := (file_text w)(path \<mapsto> text)\<rparr>"

text \<open>
  The text of an exception, as \<^verbatim>\<open>{e}\<close> formats it. \<open>FileNotFoundError\<close> carries the
  path that could not be opened (its text is given for a path that \<^verbatim>\<open>repr\<close> quotes as
  it stands), \<open>OSError\<close> and \<open>UnicodeDecodeError\<close> the text that the system or the
  codec gave; \<open>EOFError\<close> is what \<^verbatim>\<open>input\<close> raises at the end of standard input.
\<close>

fun str_error :: "error \<Rightarrow> string" where
  "str_error (FileNotFoundError path) =
     ''[Errno 2] No such file or directory: '' @ [CHR 0x27] @ path @ [CHR 0x27]"
| "str_error (OSError msg) = msg"
| "str_error (UnicodeDecodeError msg) = msg"
| "str_error EOFError = ''EOF when reading a line''"


section \<open>The script\<close>

subsection \<open>\<^verbatim>\<open>read_hex_codes\<close>\<close>

text \<open>
  The cleaning loop:
  \<^verbatim>\<open>
  for code in hex_codes:
      if code.strip().startswith('#') or not code.strip():
          continue
      cleaned_codes.append(code.strip())
  \<close>
\<close>

fun clean_codes :: "string list \<Rightarrow> string list" where
  "clean_codes [] = []"
| "clean_codes (code # hex_codes) =
     (if startswith_hash (strip code) \<or> strip code = []
      then clean_codes hex_codes
      else strip code # clean_codes hex_codes)"

text \<open>
  \<^verbatim>\<open>with open(file_path, 'r') as f: content = f.read()\<close> raises when the file is
  absent and when it exists but does not open or read; the exception leaves
  \<open>read_hex_codes\<close>.
\<close>

definition read_hex_codes :: "world \<Rightarrow> string \<Rightarrow> error + string list" where
  "read_hex_codes w file_path =
     (case file_text w file_path of
        None \<Rightarrow> Inl (FileNotFoundError file_path)
      | Some content \<Rightarrow>
          (case read_error w file_path of
             Some e \<Rightarrow> Inl e
           | None \<Rightarrow> Inr (clean_codes (re_findall content))))"

subsection \<open>\<^verbatim>\<open>find_matching_files\<close>\<close>

definition find_matching_files :: "world \<Rightarrow> string \<Rightarrow> string list \<Rightarrow> string list" where
  "find_matching_files w directory hex_codes =
     (let patterns = map (\<lambda>code. code @ ''.png'') hex_codes
      in map (path_join directory)
           (filter (\<lambda>filename. filename \<in> set patterns) (os_listdir w directory)))"

subsection \<open>\<^verbatim>\<open>delete_files\<close>\<close>

text \<open>
  The loop over \<open>files\<close>, with the list \<open>deleted_files\<close> built so far. An exception of
  \<^verbatim>\<open>os.remove\<close> is caught inside the loop body, which prints it and goes on.
\<close>

fun delete_loop :: "string list \<Rightarrow> bool \<Rightarrow> string list \<Rightarrow> world \<Rightarrow> string list \<times> world" where
  "delete_loop [] dry_run deleted_files w = (deleted_files, w)"
| "delete_loop (file_path # files) dry_run deleted_files w =
     (if dry_run then
        delete_loop files dry_run deleted_files (print (''Would delete: '' @ file_path) w)
      else
        (case os_remove file_path w of
           Inr w' \<Rightarrow>
             delete_loop files dry_run (deleted_files @ [basename file_path])
               (print (''Deleted: '' @ file_path) w')
         | Inl e \<Rightarrow>
             delete_loop files dry_run deleted_files
               (print (''Error deleting '' @ file_path @ '': '' @ str_error e) w)))"

definition delete_files :: "string list \<Rightarrow> bool \<Rightarrow> world \<Rightarrow> string list \<times> world" where
  "delete_files files dry_run w = delete_loop files dry_run [] w"

subsection \<open>\<^verbatim>\<open>main\<close>\<close>

text \<open>
  \<open>directory\<close> is the directory of the script
  (\<^verbatim>\<open>os.path.dirname(os.path.abspath(__file__))\<close>). \<open>answer\<close> is what standard
  input holds for \<^verbatim>\<open>input\<close> at the prompt: \<open>Some confirm\<close> for a line, \<open>None\<close> at the
  end of input, where \<^verbatim>\<open>input\<close> raises \<^verbatim>\<open>EOFError\<close> after writing the prompt. The
  prompt itself goes to standard output like a printed line. The result is the exit
  status of the process and the world it leaves: status 1 for \<^verbatim>\<open>sys.exit(1)\<close> and for
  an exception that nothing catches, from \<open>read_hex_codes\<close> or from \<^verbatim>\<open>input\<close> (its
  traceback goes to standard error, which is not modelled), 0 when \<open>main\<close> returns.
  \<open>log_text\<close> is what the \<^verbatim>\<open>with open(log_file, 'w')\<close> block writes.
\<close>

definition log_text :: "string list \<Rightarrow> string" where
  "log_text deleted =
     ''Deleted '' @ str_nat (length deleted) @ '' files:'' @ [LF]
       @ concat (map (\<lambda>file. file @ [LF]) deleted)"

definition main :: "string \<Rightarrow> string option \<Rightarrow> world \<Rightarrow> nat \<times> world" where
  "main directory answer w =
     (let hex_codes_file = path_join directory ''hex_codes_to_delete.txt'' in
      if \<not> os_path_exists w hex_codes_file then
        (1, print (''Error: Hex codes file not found at '' @ hex_codes_file) w)
      else
        (case read_hex_codes w hex_codes_file of
           Inl e \<Rightarrow> (1, w)
         | Inr hex_codes \<Rightarrow>
             let w1 = print (''Found '' @ str_nat (length hex_codes) @ '' hex codes to process'') w;
                 matching_files = find_matching_files w1 directory hex_codes;
                 w2 = print (''Found '' @ str_nat (length matching_files)
                               @ '' matching files to delete'') w1
             in if matching_files \<noteq> [] then
                  let w3 = print (LF # ''Files that will be deleted:'') w2;
                      w4 = fold (\<lambda>file. print (''  '' @ basename file)) matching_files w3;
                      w5 = print (LF # ''Delete these files? (yes/no): '') w4
                  in (case answer of
                        None \<Rightarrow> (1, w5)
                      | Some confirm \<Rightarrow>
                          if lower confirm = ''yes'' then
                            (case delete_files matching_files False w5 of
                               (deleted, w6) \<Rightarrow>
                                 let log_file = path_join directory ''deleted_files_log.txt'';
                                     w7 = write_file log_file (log_text deleted) w6
                                 in (0, print (LF # ''Deleted '' @ str_nat (length deleted)
                                                 @ '' files. Log written to '' @ log_file) w7))
                          else (0, print ''Operation cancelled.'' w5))
                else (0, print ''No matching files found to delete.'' w2)))"


section \<open>Notions used in the statements\<close>

text \<open>
  The hex code of the specification's glossary: one or more groups of four or more
  hexadecimal digits, joined by hyphens. \<open>split_hyphen\<close> cuts a string at its hyphens,
  as \<^verbatim>\<open>s.split('-')\<close> does.
\<close>

fun split_hyphen :: "string \<Rightarrow> string list" where
  "split_hyphen [] = [[]]"
| "split_hyphen (c # s) =
     (if c = CHR ''-'' then [] # split_hyphen s
      else (case split_hyphen s of [] \<Rightarrow> [[c]] | g # gs \<Rightarrow> (c # g) # gs))"

definition is_hex_code :: "string \<Rightarrow> bool" where
  "is_hex_code s = list_all (\<lambda>g. 4 \<le> length g \<and> list_all is_hex g) (split_hyphen s)"

text \<open>A path that \<^verbatim>\<open>os.remove\<close> removes in the world \<open>w\<close>.\<close>

definition removable :: "world \<Rightarrow> string \<Rightarrow> bool" where
  "removable w path = (file_text w path \<noteq> None \<and> \<not> undeletable w path)"

text \<open>The eight spellings of the word yes.\<close>

definition yes_spellings :: "string list" where
  "yes_spellings =
     [''yes'', ''yeS'', ''yEs'', ''yES'', ''Yes'', ''YeS'', ''YEs'', ''YES'']"

text \<open>
  A small world for concrete runs: the script lives in \<^verbatim>\<open>/emoji\<close>, the codes file
  holds \<open>content\<close>, the directory lists \<open>names\<close> (each an empty file), every file
  reads, and the paths in \<open>refused\<close> cannot be removed.
\<close>

definition sample_world :: "string \<Rightarrow> string list \<Rightarrow> string list \<Rightarrow> world" where
  "sample_world content names refused =
     \<lparr>file_text = map_of ((''/emoji/hex_codes_to_delete.txt'', content)
                           # map (\<lambda>n. (''/emoji/'' @ n, [])) names),
      read_error = (\<lambda>p. None),
      dir_entries = (\<lambda>d. if d = ''/emoji'' then names else []),
      undeletable = (\<lambda>p. p \<in> set refused),
      remove_message = (\<lambda>p. ''[Errno 13] Permission denied''),
      stdout = []\<rparr>"


section \<open>Facts about the reader\<close>

lemma is_hex_cases: "is_hex c \<Longrightarrow> \<not> is_space c \<and> c \<noteq> CHR ''#'' \<and> c \<noteq> CHR ''-'' \<and> c \<noteq> LF"
  by (auto simp: is_hex_def is_space_def)

lemma hyphen_not_space: "\<not> is_space CHR ''-''"
  by (simp add: is_space_def)

lemma split_hyphen_nonempty: "split_hyphen s \<noteq> []"
  by (induction s) (auto split: list.splits)

lemma split_hyphen_append:
  "\<forall>c\<in>set h. c \<noteq> CHR ''-'' \<Longrightarrow>
   split_hyphen (h @ t) = (h @ hd (split_hyphen t)) # tl (split_hyphen t)"
proof (induction h)
  case Nil
  then show ?case using split_hyphen_nonempty [of t] by simp
next
  case (Cons a h)
  then show ?case by (simp split: list.splits)
qed

lemma split_hyphen_run: "list_all is_hex h \<Longrightarrow> split_hyphen h = [h]"
  using split_hyphen_append [of h "[]"] by (auto simp: list_all_iff dest: is_hex_cases)

lemma split_hyphen_run_hyphen:
  "list_all is_hex h \<Longrightarrow> split_hyphen (h @ CHR ''-'' # t) = h # split_hyphen t"
  using split_hyphen_append [of h "CHR ''-'' # t"] by (auto simp: list_all_iff dest: is_hex_cases)

lemma hex_run_Some:
  "hex_run s = Some (h, r) \<Longrightarrow> list_all is_hex h \<and> 4 \<le> length h \<and> s = h @ r"
  by (auto simp: hex_run_def list_all_iff split: if_splits dest: set_takeWhileD)

lemma hyphen_runs_shape:
  "hyphen_runs s = (t, r) \<Longrightarrow> t = [] \<or> (\<exists>t'. t = CHR ''-'' # t' \<and> is_hex_code t')"
proof (induction s arbitrary: t r rule: hyphen_runs.induct)
  case (1 s)
  show ?case
  proof (cases s)
    case Nil
    with "1.prems" show ?thesis by (simp add: hyphen_runs.simps)
  next
    case (Cons c v)
    show ?thesis
    proof (cases "c = CHR ''-''")
      case False
      with Cons "1.prems" show ?thesis by (simp add: hyphen_runs.simps)
    next
      case True
      show ?thesis
      proof (cases "hex_run v")
        case None
        with Cons True "1.prems" show ?thesis by (simp add: hyphen_runs.simps)
      next
        case (Some x)
        obtain h v' where x: "x = (h, v')" by (cases x)
        obtain t2 r2 where hr: "hyphen_runs v' = (t2, r2)" by (cases "hyphen_runs v'")
        have t: "t = CHR ''-'' # h @ t2"
          using "1.prems" Cons True Some x hr by (subst (asm) hyphen_runs.simps) simp
        have h: "list_all is_hex h" "4 \<le> length h"
          using hex_run_Some Some x by auto
        have "t2 = [] \<or> (\<exists>t'. t2 = CHR ''-'' # t' \<and> is_hex_code t')"
          using "1.IH" [OF Cons True Some x [symmetric] hr] .
        then have "is_hex_code (h @ t2)"
          using h by (auto simp: is_hex_code_def split_hyphen_run split_hyphen_run_hyphen)
        with t show ?thesis by simp
      qed
    qed
  qed
qed

lemma match_group_shape:
  assumes "match_group s = Some (g, r)"
  shows "is_hex_code g"
proof -
  from assms obtain h v t where hv: "hex_run s = Some (h, v)" and hr: "hyphen_runs v = (t, r)"
    and g: "g = h @ t"
    by (auto simp: match_group_def split: option.splits prod.splits)
  have h: "list_all is_hex h" "4 \<le> length h" using hex_run_Some [OF hv] by auto
  from hyphen_runs_shape [OF hr] show ?thesis
    using h g by (auto simp: is_hex_code_def split_hyphen_run split_hyphen_run_hyphen)
qed

lemma set_split_hyphen: "set s \<subseteq> \<Union> (set ` set (split_hyphen s)) \<union> {CHR ''-''}"
proof (induction s)
  case Nil
  show ?case by simp
next
  case (Cons c s)
  then show ?case
    by (cases "split_hyphen s") (auto simp: split_hyphen_nonempty)
qed

lemma is_hex_code_chars:
  assumes "is_hex_code s"
  shows "s \<noteq> []" and "\<forall>c\<in>set s. is_hex c \<or> c = CHR ''-''"
proof -
  show "s \<noteq> []" using assms by (auto simp: is_hex_code_def)
  show "\<forall>c\<in>set s. is_hex c \<or> c = CHR ''-''"
  proof
    fix c assume "c \<in> set s"
    with set_split_hyphen [of s] have "c = CHR ''-'' \<or> (\<exists>g\<in>set (split_hyphen s). c \<in> set g)"
      by auto
    with assms show "is_hex c \<or> c = CHR ''-''"
      by (auto simp: is_hex_code_def list_all_iff)
  qed
qed

lemma strip_keeps:
  assumes "s \<noteq> []" "\<not> is_space (hd s)" "\<not> is_space (last s)"
  shows "strip s = s"
proof -
  have "dropWhile is_space s = s"
    using assms by (simp add: dropWhile_eq_self_iff)
  moreover have "dropWhile is_space (rev s) = rev s"
    using assms by (simp add: dropWhile_eq_self_iff hd_rev)
  ultimately show ?thesis by (simp add: strip_def)
qed

lemma hex_code_kept:
  assumes "is_hex_code s"
  shows "strip s = s" and "\<not> startswith_hash s" and "s \<noteq> []"
proof -
  have ne: "s \<noteq> []" and ch: "\<forall>c\<in>set s. is_hex c \<or> c = CHR ''-''"
    using is_hex_code_chars [OF assms] by auto
  from ne ch have "is_hex (hd s) \<or> hd s = CHR ''-''" "is_hex (last s) \<or> last s = CHR ''-''"
    by auto
  then have "\<not> is_space (hd s)" "\<not> is_space (last s)" "hd s \<noteq> CHR ''#''"
    using is_hex_cases hyphen_not_space by auto
  then show "strip s = s" "\<not> startswith_hash s"
    using ne by (auto simp: strip_keeps startswith_hash_def split: list.splits)
  show "s \<noteq> []" by (rule ne)
qed

lemma match_here_shape: "match_here bol s = Some (g, r) \<Longrightarrow> is_hex_code g"
  by (auto simp: match_here_def split: option.splits if_splits list.splits
           dest: match_group_shape)

lemma findall_from_shape: "c \<in> set (findall_from bol s) \<Longrightarrow> is_hex_code c"
proof (induction bol s rule: findall_from.induct)
  case (1 bol s)
  show ?case
  proof (cases "match_here bol s")
    case None
    show ?thesis
    proof (cases s)
      case Nil
      with None have "findall_from bol s = []"
        by (subst findall_from.simps) simp
      with "1.prems" show ?thesis by simp
    next
      case (Cons d v)
      with None have "findall_from bol s = findall_from (d = LF) v"
        by (subst findall_from.simps) simp
      with "1.prems" "1.IH"(1) [OF None Cons] show ?thesis by simp
    qed
  next
    case (Some m)
    obtain g r where m: "m = (g, r)" by (cases m)
    from Some m have "findall_from bol s = g # findall_from (g \<noteq> [] \<and> last g = LF) r"
      by (subst findall_from.simps) simp
    with "1.prems" have "c = g \<or> c \<in> set (findall_from (g \<noteq> [] \<and> last g = LF) r)"
      by simp
    then show ?thesis
      using match_here_shape Some m "1.IH"(2) [OF Some m [symmetric]] by auto
  qed
qed

lemma clean_codes_hex: "\<forall>c\<in>set cs. is_hex_code c \<Longrightarrow> clean_codes cs = cs"
  by (induction cs) (auto simp: hex_code_kept)

text \<open>
  C10. For every content of the codes file, \<open>read_hex_codes\<close> returns the regular
  expression's matches, all of them and in their order (unless reading the file raises,
  and then it returns nothing): every match is a non-empty string of hyphen-joined
  groups of four or more hexadecimal digits, so neither the comment test nor the
  emptiness test of the cleaning loop ever drops one.
\<close>

theorem read_hex_codes_returns_matches:
  assumes "file_text w file_path = Some content"
  shows "read_hex_codes w file_path =
           (case read_error w file_path of
              Some e \<Rightarrow> Inl e
            | None \<Rightarrow> Inr (re_findall content))
         \<and> clean_codes (re_findall content) = re_findall content
         \<and> (\<forall>code\<in>set (re_findall content). code \<noteq> [] \<and> is_hex_code code)"
proof -
  have shape: "\<forall>code\<in>set (re_findall content). is_hex_code code"
    by (auto simp: re_findall_def dest: findall_from_shape)
  then have "clean_codes (re_findall content) = re_findall content"
    by (rule clean_codes_hex)
  with assms shape show ?thesis
    by (auto simp: read_hex_codes_def dest: is_hex_code_chars(1) split: option.splits)
qed

theorem read_hex_codes_returns_matches_witness:
  "file_text (sample_world ''1F600 xyz 1F3FB-200D'' [] []) ''/emoji/hex_codes_to_delete.txt''
     = Some ''1F600 xyz 1F3FB-200D''
   \<and> read_hex_codes (sample_world ''1F600 xyz 1F3FB-200D'' [] [])
        ''/emoji/hex_codes_to_delete.txt'' = Inr [''1F600'', ''1F3FB-200D'']
   \<and> is_hex_code ''1F3FB-200D''"
proof -
  have h: "file_text (sample_world ''1F600 xyz 1F3FB-200D'' [] [])
             ''/emoji/hex_codes_to_delete.txt'' = Some ''1F600 xyz 1F3FB-200D''"
    by (simp add: sample_world_def)
  have m: "re_findall ''1F600 xyz 1F3FB-200D'' = [''1F600'', ''1F3FB-200D'']"
    by code_simp
  have e: "read_error (sample_world ''1F600 xyz 1F3FB-200D'' [] [])
             ''/emoji/hex_codes_to_delete.txt'' = None"
    by (simp add: sample_world_def)
  from read_hex_codes_returns_matches [OF h] h e show ?thesis
    unfolding m by simp
qed


section \<open>Facts about the world and the deletion loop\<close>

lemma print_simps [simp]:
  "file_text (print l w) = file_text w"
  "read_error (print l w) = read_error w"
  "dir_entries (print l w) = dir_entries w"
  "undeletable (print l w) = undeletable w"
  "remove_message (print l w) = remove_message w"
  "stdout (print l w) = stdout w @ [l]"
  by (simp_all add: print_def)

lemma removable_print [simp]: "removable (print l w) q = removable w q"
  by (simp add: removable_def)

lemma removable_after_remove [simp]:
  "removable (w\<lparr>file_text := (file_text w)(p := None)\<rparr>) q = (removable w q \<and> q \<noteq> p)"
  by (auto simp: removable_def)

lemma os_remove_removable:
  "removable w p \<Longrightarrow> os_remove p w = Inr (w\<lparr>file_text := (file_text w)(p := None)\<rparr>)"
  by (auto simp: os_remove_def removable_def)

lemma os_remove_refused:
  "\<not> removable w p \<Longrightarrow> os_remove p w = Inl (OSError (remove_message w p))"
  by (auto simp: os_remove_def removable_def)

lemma delete_loop_removed:
  "removable w p \<Longrightarrow>
   delete_loop (p # fs) False acc w =
     delete_loop fs False (acc @ [basename p])
       (print (''Deleted: '' @ p) (w\<lparr>file_text := (file_text w)(p := None)\<rparr>))"
  by (simp add: os_remove_removable)

lemma delete_loop_refused:
  "\<not> removable w p \<Longrightarrow>
   delete_loop (p # fs) False acc w =
     delete_loop fs False acc (print (''Error deleting '' @ p @ '': '' @ remove_message w p) w)"
  by (simp add: os_remove_refused)

lemma delete_loop_dry:
  "delete_loop fs True acc w =
     (acc, w\<lparr>stdout := stdout w @ map (\<lambda>p. ''Would delete: '' @ p) fs\<rparr>)"
  by (induction fs arbitrary: w) (simp_all add: print_def)

declare delete_loop.simps(2) [simp del]

lemma delete_loop_returned:
  "\<exists>ds. fst (delete_loop fs False acc w) = acc @ map basename ds
        \<and> subseq ds fs \<and> distinct ds \<and> set ds = {p \<in> set fs. removable w p}"
proof (induction fs arbitrary: acc w)
  case Nil
  show ?case by simp
next
  case (Cons p fs)
  show ?case
  proof (cases "removable w p")
    case True
    let ?w = "print (''Deleted: '' @ p) (w\<lparr>file_text := (file_text w)(p := None)\<rparr>)"
    from Cons.IH [of "acc @ [basename p]" ?w] obtain ds where
      ds: "fst (delete_loop fs False (acc @ [basename p]) ?w) = (acc @ [basename p]) @ map basename ds"
        "subseq ds fs" "distinct ds" "set ds = {q \<in> set fs. removable ?w q}"
      by blast
    have s: "set ds = {q \<in> set fs. removable w q \<and> q \<noteq> p}"
      using ds(4) by simp
    have "fst (delete_loop (p # fs) False acc w) = acc @ map basename (p # ds)"
      using ds(1) by (simp add: delete_loop_removed [OF True])
    moreover have "subseq (p # ds) (p # fs)" using ds(2) by simp
    moreover have "distinct (p # ds)" using ds(3) s by simp
    moreover have "set (p # ds) = {q \<in> set (p # fs). removable w q}"
      using s True by auto
    ultimately show ?thesis by blast
  next
    case False
    let ?w = "print (''Error deleting '' @ p @ '': '' @ remove_message w p) w"
    from Cons.IH [of acc ?w] obtain ds where
      ds: "fst (delete_loop fs False acc ?w) = acc @ map basename ds"
        "subseq ds fs" "distinct ds" "set ds = {q \<in> set fs. removable ?w q}"
      by blast
    have "fst (delete_loop (p # fs) False acc w) = acc @ map basename ds"
      using ds(1) by (simp add: delete_loop_refused [OF False])
    moreover have "subseq ds (p # fs)" using ds(2) by (rule list_emb_Cons)
    moreover have "set ds = {q \<in> set (p # fs). removable w q}"
      using ds(4) False by auto
    ultimately show ?thesis using ds(3) by blast
  qed
qed

lemma delete_loop_file_text:
  "file_text (snd (delete_loop fs False acc w)) q =
     (if q \<in> set fs \<and> removable w q then None else file_text w q)"
proof (induction fs arbitrary: acc w)
  case Nil
  show ?case by simp
next
  case (Cons p fs)
  show ?case
  proof (cases "removable w p")
    case True
    show ?thesis
      using True by (simp add: delete_loop_removed [OF True] Cons.IH removable_def)
  next
    case False
    show ?thesis
      using False by (auto simp add: delete_loop_refused [OF False] Cons.IH)
  qed
qed

lemma delete_loop_frame:
  "dir_entries (snd (delete_loop fs False acc w)) = dir_entries w
   \<and> undeletable (snd (delete_loop fs False acc w)) = undeletable w
   \<and> remove_message (snd (delete_loop fs False acc w)) = remove_message w"
proof (induction fs arbitrary: acc w)
  case Nil
  show ?case by simp
next
  case (Cons p fs)
  show ?case
  proof (cases "removable w p")
    case True
    show ?thesis by (simp add: delete_loop_removed [OF True] Cons.IH)
  next
    case False
    show ?thesis by (simp add: delete_loop_refused [OF False] Cons.IH)
  qed
qed

lemma delete_loop_stdout:
  "\<exists>out. stdout (snd (delete_loop fs False acc w)) = stdout w @ out
         \<and> length out = length fs
         \<and> (\<forall>p\<in>set fs. removable w p \<longrightarrow> ''Deleted: '' @ p \<in> set out)
         \<and> (\<forall>p\<in>set fs. \<not> removable w p \<longrightarrow>
               ''Error deleting '' @ p @ '': '' @ remove_message w p \<in> set out)"
proof (induction fs arbitrary: acc w)
  case Nil
  show ?case by simp
next
  case (Cons p fs)
  show ?case
  proof (cases "removable w p")
    case True
    define l where "l = ''Deleted: '' @ p"
    let ?w = "print l (w\<lparr>file_text := (file_text w)(p := None)\<rparr>)"
    from Cons.IH [of "acc @ [basename p]" ?w] obtain out where
      out: "stdout (snd (delete_loop fs False (acc @ [basename p]) ?w)) = stdout ?w @ out"
        "length out = length fs"
        "\<forall>q\<in>set fs. removable ?w q \<longrightarrow> ''Deleted: '' @ q \<in> set out"
        "\<forall>q\<in>set fs. \<not> removable ?w q \<longrightarrow>
               ''Error deleting '' @ q @ '': '' @ remove_message ?w q \<in> set out"
      by blast
    have "stdout (snd (delete_loop (p # fs) False acc w)) = stdout w @ (l # out)"
      using out(1) by (simp add: delete_loop_removed [OF True] l_def)
    moreover have "length (l # out) = length (p # fs)" using out(2) by simp
    moreover have "\<forall>q\<in>set (p # fs). removable w q \<longrightarrow> ''Deleted: '' @ q \<in> set (l # out)"
    proof
      fix q assume q: "q \<in> set (p # fs)"
      show "removable w q \<longrightarrow> ''Deleted: '' @ q \<in> set (l # out)"
      proof (cases "q = p")
        case True
        then show ?thesis by (simp add: l_def)
      next
        case False
        with q out(3) show ?thesis by simp
      qed
    qed
    moreover have "\<forall>q\<in>set (p # fs). \<not> removable w q \<longrightarrow>
               ''Error deleting '' @ q @ '': '' @ remove_message w q \<in> set (l # out)"
    proof
      fix q assume q: "q \<in> set (p # fs)"
      show "\<not> removable w q \<longrightarrow>
               ''Error deleting '' @ q @ '': '' @ remove_message w q \<in> set (l # out)"
      proof (cases "q = p")
        case True
        with \<open>removable w p\<close> show ?thesis by simp
      next
        case False
        with q have "q \<in> set fs" by simp
        with out(4) show ?thesis by simp
      qed
    qed
    ultimately show ?thesis by blast
  next
    case False
    define l where "l = ''Error deleting '' @ p @ '': '' @ remove_message w p"
    let ?w = "print l w"
    from Cons.IH [of acc ?w] obtain out where
      out: "stdout (snd (delete_loop fs False acc ?w)) = stdout ?w @ out"
        "length out = length fs"
        "\<forall>q\<in>set fs. removable ?w q \<longrightarrow> ''Deleted: '' @ q \<in> set out"
        "\<forall>q\<in>set fs. \<not> removable ?w q \<longrightarrow>
               ''Error deleting '' @ q @ '': '' @ remove_message ?w q \<in> set out"
      by blast
    have "stdout (snd (delete_loop (p # fs) False acc w)) = stdout w @ (l # out)"
      using out(1) by (simp add: delete_loop_refused [OF False] l_def)
    moreover have "length (l # out) = length (p # fs)" using out(2) by simp
    moreover have "\<forall>q\<in>set (p # fs). removable w q \<longrightarrow> ''Deleted: '' @ q \<in> set (l # out)"
    proof
      fix q assume q: "q \<in> set (p # fs)"
      show "removable w q \<longrightarrow> ''Deleted: '' @ q \<in> set (l # out)"
      proof (cases "q = p")
        case True
        with False show ?thesis by simp
      next
        case False
        with q out(3) show ?thesis by simp
      qed
    qed
    moreover have "\<forall>q\<in>set (p # fs). \<not> removable w q \<longrightarrow>
               ''Error deleting '' @ q @ '': '' @ remove_message w q \<in> set (l # out)"
    proof
      fix q assume q: "q \<in> set (p # fs)"
      show "\<not> removable w q \<longrightarrow>
               ''Error deleting '' @ q @ '': '' @ remove_message w q \<in> set (l # out)"
      proof (cases "q = p")
        case True
        then show ?thesis by (simp add: l_def)
      next
        case False
        with q have "q \<in> set fs" by simp
        with out(4) show ?thesis by simp
      qed
    qed
    ultimately show ?thesis by blast
  qed
qed


section \<open>Facts about \<open>main\<close>\<close>

lemma read_hex_codes_Some:
  "file_text w p = Some content \<Longrightarrow> read_error w p = None \<Longrightarrow>
   read_hex_codes w p = Inr (re_findall content)"
  by (simp add: read_hex_codes_def re_findall_def clean_codes_hex findall_from_shape)

lemma read_hex_codes_Inl:
  "read_hex_codes w p = Inl e \<Longrightarrow> file_text w p = None \<or> read_error w p = Some e"
  by (auto simp: read_hex_codes_def split: option.splits)

lemma read_hex_codes_Inr:
  "read_hex_codes w p = Inr codes \<Longrightarrow> file_text w p \<noteq> None"
  by (auto simp: read_hex_codes_def split: option.splits)

lemma find_matching_files_print [simp]:
  "find_matching_files (print l w) d codes = find_matching_files w d codes"
  by (simp add: find_matching_files_def os_listdir_def)

lemma fold_print_frame [simp]:
  "file_text (fold (\<lambda>x. print (g x)) xs w) = file_text w"
  "read_error (fold (\<lambda>x. print (g x)) xs w) = read_error w"
  "dir_entries (fold (\<lambda>x. print (g x)) xs w) = dir_entries w"
  "undeletable (fold (\<lambda>x. print (g x)) xs w) = undeletable w"
  "remove_message (fold (\<lambda>x. print (g x)) xs w) = remove_message w"
  by (induction xs arbitrary: w) simp_all

lemma last_path_join: "b \<noteq> [] \<Longrightarrow> last (path_join a b) = last b"
  by (simp add: path_join_def)

lemma matched_path_png:
  assumes "p \<in> set (find_matching_files w d codes)"
  shows "last p = CHR ''g''"
proof -
  from assms obtain c where "p = path_join d (c @ ''.png'')"
    by (auto simp: find_matching_files_def)
  then show ?thesis by (simp add: last_path_join)
qed

lemma log_path_not_matched:
  "path_join d ''deleted_files_log.txt'' \<notin> set (find_matching_files w d codes)"
proof
  assume "path_join d ''deleted_files_log.txt'' \<in> set (find_matching_files w d codes)"
  from matched_path_png [OF this] show False by (simp add: last_path_join)
qed

lemma str_nat_0: "str_nat 0 = ''0''"
  by (simp add: str_nat.simps)

lemma main_missing:
  assumes "\<not> os_path_exists w (path_join d ''hex_codes_to_delete.txt'')"
  shows "main d a w =
    (1, print (''Error: Hex codes file not found at '' @ path_join d ''hex_codes_to_delete.txt'') w)"
  using assms by (simp add: main_def)

lemma main_no_matches:
  assumes "read_hex_codes w (path_join d ''hex_codes_to_delete.txt'') = Inr codes"
    and "find_matching_files w d codes = []"
  shows "main d a w =
    (0, w\<lparr>stdout := stdout w @
          [''Found '' @ str_nat (length codes) @ '' hex codes to process'',
           ''Found 0 matching files to delete'',
           ''No matching files found to delete.'']\<rparr>)"
proof -
  have "main d a w =
    (0, print ''No matching files found to delete.''
          (print ''Found 0 matching files to delete''
             (print (''Found '' @ str_nat (length codes) @ '' hex codes to process'') w)))"
    using assms read_hex_codes_Inr [OF assms(1)]
    by (simp add: main_def os_path_exists_def Let_def str_nat_0)
  then show ?thesis by (simp add: print_def)
qed

lemma main_prompted:
  assumes "read_hex_codes w (path_join d ''hex_codes_to_delete.txt'') = Inr codes"
    and "find_matching_files w d codes \<noteq> []"
  shows "\<exists>w5. file_text w5 = file_text w \<and> undeletable w5 = undeletable w
           \<and> remove_message w5 = remove_message w \<and> dir_entries w5 = dir_entries w
           \<and> main d None w = (1, w5)
           \<and> main d (Some a) w =
               (if lower a = ''yes'' then
                  (0, print (LF # ''Deleted ''
                        @ str_nat (length (fst (delete_files (find_matching_files w d codes) False w5)))
                        @ '' files. Log written to '' @ path_join d ''deleted_files_log.txt'')
                       (write_file (path_join d ''deleted_files_log.txt'')
                          (log_text (fst (delete_files (find_matching_files w d codes) False w5)))
                          (snd (delete_files (find_matching_files w d codes) False w5))))
                else (0, print ''Operation cancelled.'' w5))"
proof -
  define m where "m = find_matching_files w d codes"
  define w2 where "w2 = print (''Found '' @ str_nat (length m) @ '' matching files to delete'')
     (print (''Found '' @ str_nat (length codes) @ '' hex codes to process'') w)"
  define w5 where "w5 = print (LF # ''Delete these files? (yes/no): '')
     (fold (\<lambda>file. print (''  '' @ basename file)) m
        (print (LF # ''Files that will be deleted:'') w2))"
  have frame: "file_text w5 = file_text w" "undeletable w5 = undeletable w"
    "remove_message w5 = remove_message w" "dir_entries w5 = dir_entries w"
    by (simp_all add: w5_def w2_def)
  have ex: "os_path_exists w (path_join d ''hex_codes_to_delete.txt'')"
    using read_hex_codes_Inr [OF assms(1)] by (simp add: os_path_exists_def)
  have eof: "main d None w = (1, w5)"
    using assms ex by (simp add: main_def Let_def m_def w2_def w5_def)
  have "main d (Some a) w =
      (if lower a = ''yes'' then
         (0, print (LF # ''Deleted '' @ str_nat (length (fst (delete_files m False w5)))
                        @ '' files. Log written to '' @ path_join d ''deleted_files_log.txt'')
               (write_file (path_join d ''deleted_files_log.txt'')
                  (log_text (fst (delete_files m False w5))) (snd (delete_files m False w5))))
       else (0, print ''Operation cancelled.'' w5))"
    using assms ex
    by (simp add: main_def Let_def m_def w2_def w5_def case_prod_beta)
  with frame eof show ?thesis unfolding m_def by blast
qed


section \<open>The answers that read as yes\<close>

lemma of_char_lower:
  "(of_char (char_lower c) :: nat) =
     (if (65 \<le> (of_char c :: nat) \<and> (of_char c :: nat) \<le> 90)
         \<or> (192 \<le> (of_char c :: nat) \<and> (of_char c :: nat) \<le> 222 \<and> (of_char c :: nat) \<noteq> 215)
      then of_char c + 32 else of_char c)"
  by (auto simp: char_lower_def Let_def of_char_of)

lemma char_lower_letter:
  assumes "char_lower c = d" and "(of_char d :: nat) = k" and "97 \<le> k" and "k \<le> 122"
  shows "(of_char c :: nat) = k \<or> (of_char c :: nat) = k - 32"
proof -
  have "(of_char (char_lower c) :: nat) = k" using assms by simp
  then show ?thesis using assms(3,4) by (auto simp: of_char_lower split: if_splits)
qed

lemma char_lower_y: "char_lower c = CHR ''y'' \<longleftrightarrow> c = CHR ''y'' \<or> c = CHR ''Y''"
proof
  assume "char_lower c = CHR ''y''"
  from char_lower_letter [OF this, of 121]
  have "(of_char c :: nat) = of_char CHR ''y'' \<or> (of_char c :: nat) = of_char CHR ''Y''" by simp
  then show "c = CHR ''y'' \<or> c = CHR ''Y''" by (simp only: of_char_eq_iff)
next
  assume "c = CHR ''y'' \<or> c = CHR ''Y''"
  moreover have "char_lower CHR ''y'' = CHR ''y''" "char_lower CHR ''Y'' = CHR ''y''"
    by code_simp+
  ultimately show "char_lower c = CHR ''y''" by auto
qed

lemma char_lower_e: "char_lower c = CHR ''e'' \<longleftrightarrow> c = CHR ''e'' \<or> c = CHR ''E''"
proof
  assume "char_lower c = CHR ''e''"
  from char_lower_letter [OF this, of 101]
  have "(of_char c :: nat) = of_char CHR ''e'' \<or> (of_char c :: nat) = of_char CHR ''E''" by simp
  then show "c = CHR ''e'' \<or> c = CHR ''E''" by (simp only: of_char_eq_iff)
next
  assume "c = CHR ''e'' \<or> c = CHR ''E''"
  moreover have "char_lower CHR ''e'' = CHR ''e''" "char_lower CHR ''E'' = CHR ''e''"
    by code_simp+
  ultimately show "char_lower c = CHR ''e''" by auto
qed

lemma char_lower_s: "char_lower c = CHR ''s'' \<longleftrightarrow> c = CHR ''s'' \<or> c = CHR ''S''"
proof
  assume "char_lower c = CHR ''s''"
  from char_lower_letter [OF this, of 115]
  have "(of_char c :: nat) = of_char CHR ''s'' \<or> (of_char c :: nat) = of_char CHR ''S''" by simp
  then show "c = CHR ''s'' \<or> c = CHR ''S''" by (simp only: of_char_eq_iff)
next
  assume "c = CHR ''s'' \<or> c = CHR ''S''"
  moreover have "char_lower CHR ''s'' = CHR ''s''" "char_lower CHR ''S'' = CHR ''s''"
    by code_simp+
  ultimately show "char_lower c = CHR ''s''" by auto
qed

lemma lower_yes_iff: "lower s = ''yes'' \<longleftrightarrow> s \<in> set yes_spellings"
proof
  assume "lower s = ''yes''"
  then obtain a b c where s: "s = [a, b, c]"
    and l: "char_lower a = CHR ''y''" "char_lower b = CHR ''e''" "char_lower c = CHR ''s''"
    by (auto simp: lower_def map_eq_Cons_conv)
  from l show "s \<in> set yes_spellings"
    unfolding char_lower_y char_lower_e char_lower_s s yes_spellings_def by auto
next
  assume "s \<in> set yes_spellings"
  then have "s = ''yes'' \<or> s = ''yeS'' \<or> s = ''yEs'' \<or> s = ''yES'' \<or> s = ''Yes''
      \<or> s = ''YeS'' \<or> s = ''YEs'' \<or> s = ''YES''"
    by (simp add: yes_spellings_def)
  then show "lower s = ''yes''"
    by (auto simp: lower_def char_lower_y char_lower_e char_lower_s)
qed


section \<open>The two ways past the prompt\<close>

lemma removable_cong:
  "file_text w' = file_text w \<Longrightarrow> undeletable w' = undeletable w \<Longrightarrow> removable w' p = removable w p"
  by (simp add: removable_def)

lemma main_cancelled:
  assumes "read_hex_codes w (path_join d ''hex_codes_to_delete.txt'') = Inr codes"
    and "find_matching_files w d codes \<noteq> []"
    and "lower a \<noteq> ''yes''"
  shows "fst (main d (Some a) w) = 0 \<and> file_text (snd (main d (Some a) w)) = file_text w
         \<and> last (stdout (snd (main d (Some a) w))) = ''Operation cancelled.''"
proof -
  from main_prompted [OF assms(1,2), of a] assms(3) obtain w5 where
    "file_text w5 = file_text w" "main d (Some a) w = (0, print ''Operation cancelled.'' w5)"
    by auto
  then show ?thesis by simp
qed

lemma main_confirmed:
  assumes "read_hex_codes w (path_join d ''hex_codes_to_delete.txt'') = Inr codes"
    and "find_matching_files w d codes \<noteq> []"
    and "lower a = ''yes''"
  shows "\<exists>ds. subseq ds (find_matching_files w d codes) \<and> distinct ds
           \<and> set ds = {p \<in> set (find_matching_files w d codes). removable w p}
           \<and> fst (main d (Some a) w) = 0
           \<and> (\<forall>q. file_text (snd (main d (Some a) w)) q =
                  (if q = path_join d ''deleted_files_log.txt''
                   then Some (log_text (map basename ds))
                   else if q \<in> set (find_matching_files w d codes) \<and> removable w q then None
                   else file_text w q))"
proof -
  define m where "m = find_matching_files w d codes"
  from main_prompted [OF assms(1,2), of a] assms(3) obtain w5 where
    fr: "file_text w5 = file_text w" "undeletable w5 = undeletable w"
    and mn: "main d (Some a) w =
      (0, print (LF # ''Deleted '' @ str_nat (length (fst (delete_files m False w5)))
                     @ '' files. Log written to '' @ path_join d ''deleted_files_log.txt'')
            (write_file (path_join d ''deleted_files_log.txt'')
               (log_text (fst (delete_files m False w5))) (snd (delete_files m False w5))))"
    unfolding m_def by auto
  have rm: "removable w5 p = removable w p" for p
    using fr by (rule removable_cong)
  from delete_loop_returned [of m "[]" w5] obtain ds where
    ds: "fst (delete_files m False w5) = map basename ds" "subseq ds m" "distinct ds"
      "set ds = {p \<in> set m. removable w p}"
    unfolding delete_files_def rm by auto
  have ft: "file_text (snd (delete_files m False w5)) q =
      (if q \<in> set m \<and> removable w q then None else file_text w q)" for q
    using delete_loop_file_text [of m "[]" w5 q] by (simp add: delete_files_def rm fr)
  have "file_text (snd (main d (Some a) w)) q =
      (if q = path_join d ''deleted_files_log.txt'' then Some (log_text (map basename ds))
       else if q \<in> set m \<and> removable w q then None else file_text w q)" for q
    by (simp add: mn write_file_def ft ds(1))
  moreover have "fst (main d (Some a) w) = 0" by (simp add: mn)
  ultimately show ?thesis using ds(2,3,4) unfolding m_def by blast
qed

lemma main_end_of_input:
  assumes "read_hex_codes w (path_join d ''hex_codes_to_delete.txt'') = Inr codes"
    and "find_matching_files w d codes \<noteq> []"
  shows "fst (main d None w) = 1 \<and> file_text (snd (main d None w)) = file_text w"
proof -
  from main_prompted [OF assms, of "[]"] obtain w5 where
    "file_text w5 = file_text w" "main d None w = (1, w5)"
    by auto
  then show ?thesis by simp
qed

lemma main_unreadable:
  assumes "os_path_exists w (path_join d ''hex_codes_to_delete.txt'')"
    and "read_hex_codes w (path_join d ''hex_codes_to_delete.txt'') = Inl e"
  shows "main d a w = (1, w)"
  using assms by (simp add: main_def)



section \<open>The claims\<close>

lemma basename_path_join:
  assumes "CHR ''/'' \<notin> set f"
  shows "basename (path_join d f) = f"
proof -
  have tw: "takeWhile (\<lambda>c. c \<noteq> CHR ''/'') (rev f @ r) = rev f @ takeWhile (\<lambda>c. c \<noteq> CHR ''/'') r" for r
    by (rule takeWhile_append2) (use assms in auto)
  have hd: "f \<noteq> [] \<Longrightarrow> hd f \<noteq> CHR ''/''" using assms by (cases f) auto
  show ?thesis
  proof (cases "d = [] \<or> last d = CHR ''/''")
    case True
    then have "path_join d f = d @ f" using hd by (auto simp: path_join_def)
    moreover have "takeWhile (\<lambda>c. c \<noteq> CHR ''/'') (rev d) = []"
      using True by (cases d rule: rev_cases) auto
    ultimately show ?thesis by (simp add: basename_def tw)
  next
    case False
    then have "path_join d f = d @ ''/'' @ f" using hd by (auto simp: path_join_def)
    then show ?thesis by (simp add: basename_def tw)
  qed
qed

text \<open>
  C9. With the dry-run flag set, \<open>delete_files\<close> changes nothing but standard output:
  it prints one line \<^verbatim>\<open>Would delete: <path>\<close> for each path, in order, leaves every
  file as it was, and returns the empty list.
\<close>

theorem delete_files_dry_run:
  "delete_files files True w =
     ([], w\<lparr>stdout := stdout w @ map (\<lambda>file_path. ''Would delete: '' @ file_path) files\<rparr>)
   \<and> file_text (snd (delete_files files True w)) = file_text w"
  by (simp add: delete_files_def delete_loop_dry)

theorem delete_files_dry_run_witness:
  "delete_files [''/emoji/1F600.png'', ''/emoji/1F602.png''] True
     (sample_world [] [''1F600.png'', ''1F602.png''] [])
   = ([], (sample_world [] [''1F600.png'', ''1F602.png''] [])
            \<lparr>stdout := [''Would delete: /emoji/1F600.png'', ''Would delete: /emoji/1F602.png'']\<rparr>)"
  using delete_files_dry_run [of "[''/emoji/1F600.png'', ''/emoji/1F602.png'']"
      "sample_world [] [''1F600.png'', ''1F602.png''] []"]
  by (simp add: sample_world_def)

text \<open>
  C5. Without dry run, \<open>delete_files\<close> goes through the whole list whatever fails.
  The returned list holds the base names of the paths \<open>ds\<close> that were removed: these
  are the paths of the list that \<^verbatim>\<open>os.remove\<close> can remove, each once and in the order
  of the list. Afterwards exactly these files are gone and every other file is as
  before; every path of the list has its line on standard output, a removed one
  \<^verbatim>\<open>Deleted: <path>\<close>, a refused one \<^verbatim>\<open>Error deleting <path>: <message>\<close>, and
  a refused path is not among \<open>ds\<close>.
\<close>

theorem delete_files_isolates_failures:
  "\<exists>ds. fst (delete_files files False w) = map basename ds
        \<and> subseq ds files \<and> distinct ds \<and> set ds = {p \<in> set files. removable w p}
        \<and> (\<forall>p. file_text (snd (delete_files files False w)) p =
                 (if p \<in> set files \<and> removable w p then None else file_text w p))
        \<and> (\<exists>out. stdout (snd (delete_files files False w)) = stdout w @ out
                 \<and> length out = length files
                 \<and> (\<forall>p\<in>set files. removable w p \<longrightarrow> ''Deleted: '' @ p \<in> set out)
                 \<and> (\<forall>p\<in>set files. \<not> removable w p \<longrightarrow>
                       ''Error deleting '' @ p @ '': '' @ remove_message w p \<in> set out))"
proof -
  from delete_loop_returned [of files "[]" w] obtain ds where
    "fst (delete_loop files False [] w) = map basename ds" "subseq ds files" "distinct ds"
    "set ds = {p \<in> set files. removable w p}"
    by auto
  moreover note delete_loop_file_text [of files "[]" w] delete_loop_stdout [of files "[]" w]
  ultimately show ?thesis unfolding delete_files_def by blast
qed

theorem delete_files_isolates_failures_witness:
  "\<not> removable (sample_world [] [''A.png'', ''B.png''] [''/emoji/A.png'']) ''/emoji/A.png''
   \<and> removable (sample_world [] [''A.png'', ''B.png''] [''/emoji/A.png'']) ''/emoji/B.png''
   \<and> fst (delete_files [''/emoji/A.png'', ''/emoji/B.png''] False
            (sample_world [] [''A.png'', ''B.png''] [''/emoji/A.png''])) = [''B.png'']
   \<and> file_text (snd (delete_files [''/emoji/A.png'', ''/emoji/B.png''] False
            (sample_world [] [''A.png'', ''B.png''] [''/emoji/A.png'']))) ''/emoji/B.png'' = None
   \<and> file_text (snd (delete_files [''/emoji/A.png'', ''/emoji/B.png''] False
            (sample_world [] [''A.png'', ''B.png''] [''/emoji/A.png'']))) ''/emoji/A.png'' = Some []"
proof -
  let ?w = "sample_world [] [''A.png'', ''B.png''] [''/emoji/A.png'']"
  let ?fs = "[''/emoji/A.png'', ''/emoji/B.png'']"
  have a: "\<not> removable ?w ''/emoji/A.png''" by (simp add: removable_def sample_world_def)
  have b: "removable ?w ''/emoji/B.png''" by (simp add: removable_def sample_world_def)
  have t: "file_text ?w ''/emoji/A.png'' = Some []" by (simp add: sample_world_def)
  have r: "fst (delete_files ?fs False ?w) = [''B.png'']"
    by code_simp
  from delete_files_isolates_failures [of ?fs ?w] have
    ft: "\<forall>p. file_text (snd (delete_files ?fs False ?w)) p =
                 (if p \<in> set ?fs \<and> removable ?w p then None else file_text ?w p)"
    by blast
  have "file_text (snd (delete_files ?fs False ?w)) ''/emoji/B.png'' = None"
    using ft b by simp
  moreover have "file_text (snd (delete_files ?fs False ?w)) ''/emoji/A.png'' = Some []"
    using ft a t by simp
  ultimately show ?thesis using a b r by simp
qed

text \<open>
  C3. \<open>find_matching_files\<close> returns, joined to the directory, exactly the entries
  of the directory listing that equal \<^verbatim>\<open>code + ".png"\<close> for some candidate code, in
  listing order; for entries without a slash their base names are these entries
  themselves. The comparison is equality of whole strings: the file
  \<^verbatim>\<open>ABCD1234.png\<close> is found for the candidate \<^verbatim>\<open>ABCD1234\<close> and not for
  \<^verbatim>\<open>ABCD123\<close> or \<^verbatim>\<open>ABCD12345\<close>, and the candidate \<^verbatim>\<open>ABCD1234\<close> finds no file
  whose name is shorter, longer, in another case or with another extension.
\<close>

theorem find_matching_files_exact:
  "find_matching_files w directory hex_codes =
     map (path_join directory)
       (filter (\<lambda>filename. \<exists>code\<in>set hex_codes. filename = code @ ''.png'')
          (os_listdir w directory))
   \<and> ((\<forall>filename\<in>set (os_listdir w directory). CHR ''/'' \<notin> set filename) \<longrightarrow>
        map basename (find_matching_files w directory hex_codes) =
          filter (\<lambda>filename. \<exists>code\<in>set hex_codes. filename = code @ ''.png'')
            (os_listdir w directory))
   \<and> (os_listdir w directory = [''ABCD1234.png''] \<longrightarrow>
        find_matching_files w directory [''ABCD1234''] = [path_join directory ''ABCD1234.png'']
        \<and> find_matching_files w directory [''ABCD123'', ''ABCD12345''] = [])
   \<and> (os_listdir w directory =
          [''ABCD123.png'', ''ABCD12345.png'', ''abcd1234.png'', ''ABCD1234.PNG'',
           ''ABCD1234.jpg'', ''ABCD1234'', ''xABCD1234.png'', ''ABCD1234.png.bak''] \<longrightarrow>
        find_matching_files w directory [''ABCD1234''] = [])"
proof -
  have 1: "find_matching_files w directory hex_codes =
     map (path_join directory)
       (filter (\<lambda>filename. \<exists>code\<in>set hex_codes. filename = code @ ''.png'')
          (os_listdir w directory))"
    by (simp add: find_matching_files_def image_iff)
  have 2: "map basename (map (path_join directory) fs) = fs"
    if "\<forall>filename\<in>set fs. CHR ''/'' \<notin> set filename" for fs
    using that by (induction fs) (simp_all add: basename_path_join)
  have 3: "map basename (find_matching_files w directory hex_codes) =
          filter (\<lambda>filename. \<exists>code\<in>set hex_codes. filename = code @ ''.png'')
            (os_listdir w directory)"
    if "\<forall>filename\<in>set (os_listdir w directory). CHR ''/'' \<notin> set filename"
    unfolding 1 using that by (intro 2) simp
  show ?thesis
    using 1 3 by (simp add: find_matching_files_def)
qed

theorem find_matching_files_exact_witness:
  "os_listdir (sample_world [] [''ABCD1234.png''] []) ''/emoji'' = [''ABCD1234.png'']
   \<and> find_matching_files (sample_world [] [''ABCD1234.png''] []) ''/emoji'' [''ABCD1234'']
       = [''/emoji/ABCD1234.png'']
   \<and> find_matching_files (sample_world [] [''ABCD1234.png''] []) ''/emoji''
         [''ABCD123'', ''ABCD12345''] = []
   \<and> map basename
        (find_matching_files (sample_world [] [''ABCD1234.png''] []) ''/emoji'' [''ABCD1234''])
       = [''ABCD1234.png'']
   \<and> os_listdir
         (sample_world []
            [''ABCD123.png'', ''ABCD12345.png'', ''abcd1234.png'', ''ABCD1234.PNG'',
             ''ABCD1234.jpg'', ''ABCD1234'', ''xABCD1234.png'', ''ABCD1234.png.bak''] [])
         ''/emoji''
       = [''ABCD123.png'', ''ABCD12345.png'', ''abcd1234.png'', ''ABCD1234.PNG'',
          ''ABCD1234.jpg'', ''ABCD1234'', ''xABCD1234.png'', ''ABCD1234.png.bak'']
   \<and> find_matching_files
         (sample_world []
            [''ABCD123.png'', ''ABCD12345.png'', ''abcd1234.png'', ''ABCD1234.PNG'',
             ''ABCD1234.jpg'', ''ABCD1234'', ''xABCD1234.png'', ''ABCD1234.png.bak''] [])
         ''/emoji'' [''ABCD1234'']
       = []"
proof -
  let ?v = "sample_world []
            [''ABCD123.png'', ''ABCD12345.png'', ''abcd1234.png'', ''ABCD1234.PNG'',
             ''ABCD1234.jpg'', ''ABCD1234'', ''xABCD1234.png'', ''ABCD1234.png.bak''] []"
  have l: "os_listdir (sample_world [] [''ABCD1234.png''] []) ''/emoji'' = [''ABCD1234.png'']"
    by (simp add: os_listdir_def sample_world_def)
  have k: "os_listdir ?v ''/emoji''
       = [''ABCD123.png'', ''ABCD12345.png'', ''abcd1234.png'', ''ABCD1234.PNG'',
          ''ABCD1234.jpg'', ''ABCD1234'', ''xABCD1234.png'', ''ABCD1234.png.bak'']"
    by (simp add: os_listdir_def sample_world_def)
  have j: "path_join ''/emoji'' ''ABCD1234.png'' = ''/emoji/ABCD1234.png''"
    by (simp add: path_join_def)
  have b: "basename ''/emoji/ABCD1234.png'' = ''ABCD1234.png''"
    by (simp add: basename_def)
  from find_matching_files_exact [of "sample_world [] [''ABCD1234.png''] []" "''/emoji''"
      "[''ABCD1234'']"] l
  have 1: "find_matching_files (sample_world [] [''ABCD1234.png''] []) ''/emoji'' [''ABCD1234'']
       = [''/emoji/ABCD1234.png'']"
    "find_matching_files (sample_world [] [''ABCD1234.png''] []) ''/emoji''
         [''ABCD123'', ''ABCD12345''] = []"
    by (simp_all add: j)
  from find_matching_files_exact [of ?v "''/emoji''" "[''ABCD1234'']"] k
  have 2: "find_matching_files ?v ''/emoji'' [''ABCD1234''] = []"
    by blast
  from l k 1 2 b show ?thesis by simp
qed

text \<open>
  C1. The claim is that a code on a line starting with \<^verbatim>\<open>#\<close> is discarded. On the
  line \<^verbatim>\<open># ABCD1234\<close> the pattern matches after the space, the match
  \<^verbatim>\<open>ABCD1234\<close> does not start with \<^verbatim>\<open>#\<close>, and \<open>read_hex_codes\<close> returns it.
\<close>

theorem read_hex_codes_keeps_commented_code:
  "read_hex_codes
     (w\<lparr>file_text := (file_text w)(file_path \<mapsto> ''# ABCD1234''),
        read_error := (read_error w)(file_path := None)\<rparr>) file_path
     = Inr [''ABCD1234'']"
proof -
  have "re_findall ''# ABCD1234'' = [''ABCD1234'']" by code_simp
  moreover have "clean_codes [''ABCD1234''] = [''ABCD1234'']" by code_simp
  ultimately show ?thesis by (simp add: read_hex_codes_def)
qed

text \<open>
  C2. The worked example: the codes file holds \<^verbatim>\<open>1F600\<close>, \<^verbatim>\<open>1F601-1F3FB\<close> and
  \<^verbatim>\<open># 1F602\<close> on three lines, the directory lists \<^verbatim>\<open>1F600.png\<close>, \<^verbatim>\<open>1F602.png\<close>
  and \<^verbatim>\<open>other.png\<close>. The claim expects \<^verbatim>\<open>1F600.png\<close> alone; the reader returns
  all three codes, and the matcher returns \<^verbatim>\<open>1F600.png\<close> and \<^verbatim>\<open>1F602.png\<close>.
\<close>

theorem spec_example_matches_commented_file:
  "read_hex_codes
     (w\<lparr>file_text := (file_text w)
            (file_path \<mapsto> ''1F600'' @ [LF] @ ''1F601-1F3FB'' @ [LF] @ ''# 1F602'' @ [LF]),
        read_error := (read_error w)(file_path := None),
        dir_entries := (dir_entries w)
            (directory := [''1F600.png'', ''1F602.png'', ''other.png''])\<rparr>) file_path
     = Inr [''1F600'', ''1F601-1F3FB'', ''1F602'']
   \<and> find_matching_files
       (w\<lparr>file_text := (file_text w)
            (file_path \<mapsto> ''1F600'' @ [LF] @ ''1F601-1F3FB'' @ [LF] @ ''# 1F602'' @ [LF]),
          read_error := (read_error w)(file_path := None),
          dir_entries := (dir_entries w)
            (directory := [''1F600.png'', ''1F602.png'', ''other.png''])\<rparr>)
       directory [''1F600'', ''1F601-1F3FB'', ''1F602'']
     = [path_join directory ''1F600.png'', path_join directory ''1F602.png'']"
proof -
  have "re_findall (''1F600'' @ [LF] @ ''1F601-1F3FB'' @ [LF] @ ''# 1F602'' @ [LF])
      = [''1F600'', ''1F601-1F3FB'', ''1F602'']" by code_simp
  moreover have "clean_codes [''1F600'', ''1F601-1F3FB'', ''1F602'']
      = [''1F600'', ''1F601-1F3FB'', ''1F602'']" by code_simp
  ultimately show ?thesis
    by (simp add: read_hex_codes_def find_matching_files_def os_listdir_def)
qed

text \<open>
  C6. The claim is that the exit status is 1 when the codes file
  \<^verbatim>\<open>hex_codes_to_delete.txt\<close> does not exist and 0 in every other run. The first
  half holds; the second does not: with the codes file present the status is also 1
  when standard input is at its end at the prompt, and when the codes file does not
  read.
\<close>

theorem main_exit_status_counterexample:
  "os_path_exists (sample_world ''1F600'' [''1F600.png''] [])
     (path_join ''/emoji'' ''hex_codes_to_delete.txt'')
   \<and> fst (main ''/emoji'' None (sample_world ''1F600'' [''1F600.png''] [])) = 1
   \<and> os_path_exists
        ((sample_world ''1F600'' [''1F600.png''] [])
           \<lparr>read_error := [''/emoji/hex_codes_to_delete.txt'' \<mapsto> UnicodeDecodeError ''invalid start byte'']\<rparr>)
        (path_join ''/emoji'' ''hex_codes_to_delete.txt'')
   \<and> fst (main ''/emoji'' (Some ''no'')
        ((sample_world ''1F600'' [''1F600.png''] [])
           \<lparr>read_error := [''/emoji/hex_codes_to_delete.txt'' \<mapsto> UnicodeDecodeError ''invalid start byte'']\<rparr>)) = 1"
proof -
  let ?w = "sample_world ''1F600'' [''1F600.png''] []"
  let ?v = "?w\<lparr>read_error := [''/emoji/hex_codes_to_delete.txt'' \<mapsto> UnicodeDecodeError ''invalid start byte'']\<rparr>"
  have p: "path_join ''/emoji'' ''hex_codes_to_delete.txt'' = ''/emoji/hex_codes_to_delete.txt''"
    by (simp add: path_join_def)
  have f: "file_text ?w ''/emoji/hex_codes_to_delete.txt'' = Some ''1F600''"
    "read_error ?w ''/emoji/hex_codes_to_delete.txt'' = None"
    by (simp_all add: sample_world_def)
  have e: "os_path_exists ?w ''/emoji/hex_codes_to_delete.txt''"
    "os_path_exists ?v ''/emoji/hex_codes_to_delete.txt''"
    using f by (simp_all add: os_path_exists_def)
  have "re_findall ''1F600'' = [''1F600'']" by code_simp
  with f have r: "read_hex_codes ?w (path_join ''/emoji'' ''hex_codes_to_delete.txt'')
      = Inr [''1F600'']"
    by (simp add: p read_hex_codes_Some)
  have m: "find_matching_files ?w ''/emoji'' [''1F600''] \<noteq> []"
    by (simp add: find_matching_files_def os_listdir_def sample_world_def)
  have 1: "fst (main ''/emoji'' None ?w) = 1"
    using main_end_of_input [OF r m] by simp
  have "read_hex_codes ?v (path_join ''/emoji'' ''hex_codes_to_delete.txt'')
      = Inl (UnicodeDecodeError ''invalid start byte'')"
    using f by (simp add: p read_hex_codes_def)
  with e(2) have 2: "fst (main ''/emoji'' (Some ''no'') ?v) = 1"
    by (simp add: p main_unreadable)
  from e 1 2 show ?thesis by (simp add: p)
qed

text \<open>
  C6, as amended. When the codes file does not exist, \<open>main\<close> does nothing but print
  the error message and the exit status is 1. When it exists, the status is 1 if
  reading it raises, or if files match and standard input is at its end at the prompt;
  in every other run it is 0. So the status is 0 whenever the codes file reads and a
  line is there to answer the prompt: on the no-matches path, the cancelled path and
  the confirmed path.
\<close>

theorem main_exit_status:
  "(\<not> os_path_exists w (path_join directory ''hex_codes_to_delete.txt'') \<longrightarrow>
      main directory answer w =
        (1, print (''Error: Hex codes file not found at ''
                     @ path_join directory ''hex_codes_to_delete.txt'') w))
   \<and> (os_path_exists w (path_join directory ''hex_codes_to_delete.txt'') \<longrightarrow>
      fst (main directory answer w) =
        (case read_hex_codes w (path_join directory ''hex_codes_to_delete.txt'') of
           Inl e \<Rightarrow> 1
         | Inr hex_codes \<Rightarrow>
             if find_matching_files w directory hex_codes \<noteq> [] \<and> answer = None
             then 1 else 0))
   \<and> (os_path_exists w (path_join directory ''hex_codes_to_delete.txt'')
        \<and> read_error w (path_join directory ''hex_codes_to_delete.txt'') = None
        \<and> answer \<noteq> None \<longrightarrow>
      fst (main directory answer w) = 0)"
proof -
  let ?H = "path_join directory ''hex_codes_to_delete.txt''"
  have status: "fst (main directory answer w) =
        (case read_hex_codes w ?H of
           Inl e \<Rightarrow> 1
         | Inr hex_codes \<Rightarrow>
             if find_matching_files w directory hex_codes \<noteq> [] \<and> answer = None
             then 1 else 0)"
    if ex: "os_path_exists w ?H"
  proof (cases "read_hex_codes w ?H")
    case (Inl e)
    with main_unreadable [OF ex Inl, of answer] show ?thesis by simp
  next
    case (Inr codes)
    show ?thesis
    proof (cases "find_matching_files w directory codes = []")
      case True
      from main_no_matches [OF Inr True, of answer] Inr True show ?thesis by simp
    next
      case False
      show ?thesis
      proof (cases answer)
        case None
        with main_end_of_input [OF Inr False] Inr False show ?thesis by simp
      next
        case (Some a)
        from main_prompted [OF Inr False, of a] obtain w5 where
          "main directory (Some a) w =
             (if lower a = ''yes'' then
                (0, print (LF # ''Deleted ''
                      @ str_nat (length (fst (delete_files
                            (find_matching_files w directory codes) False w5)))
                      @ '' files. Log written to ''
                      @ path_join directory ''deleted_files_log.txt'')
                     (write_file (path_join directory ''deleted_files_log.txt'')
                        (log_text (fst (delete_files
                            (find_matching_files w directory codes) False w5)))
                        (snd (delete_files
                            (find_matching_files w directory codes) False w5))))
              else (0, print ''Operation cancelled.'' w5))"
          by blast
        then have "fst (main directory (Some a) w) = 0" by (simp split: if_splits)
        with Some Inr False show ?thesis by simp
      qed
    qed
  qed
  have zero: "fst (main directory answer w) = 0"
    if ex: "os_path_exists w ?H" and rd: "read_error w ?H = None" and an: "answer \<noteq> None"
  proof -
    from ex obtain content where "file_text w ?H = Some content"
      by (auto simp: os_path_exists_def)
    from read_hex_codes_Some [OF this rd] status [OF ex] an show ?thesis by simp
  qed
  from status zero show ?thesis by (simp add: main_missing)
qed

theorem main_exit_status_witness:
  "os_path_exists (sample_world ''1F600'' [''1F600.png''] [])
     (path_join ''/emoji'' ''hex_codes_to_delete.txt'')
   \<and> read_error (sample_world ''1F600'' [''1F600.png''] [])
        (path_join ''/emoji'' ''hex_codes_to_delete.txt'') = None
   \<and> fst (main ''/emoji'' (Some ''no'') (sample_world ''1F600'' [''1F600.png''] [])) = 0
   \<and> \<not> os_path_exists ((sample_world ''1F600'' [''1F600.png''] [])\<lparr>file_text := Map.empty\<rparr>)
         (path_join ''/emoji'' ''hex_codes_to_delete.txt'')
   \<and> main ''/emoji'' (Some ''yes'')
        ((sample_world ''1F600'' [''1F600.png''] [])\<lparr>file_text := Map.empty\<rparr>)
       = (1, (sample_world ''1F600'' [''1F600.png''] [])
               \<lparr>file_text := Map.empty,
                stdout := [''Error: Hex codes file not found at /emoji/hex_codes_to_delete.txt'']\<rparr>)"
proof -
  let ?w = "sample_world ''1F600'' [''1F600.png''] []"
  let ?v = "?w\<lparr>file_text := Map.empty\<rparr>"
  have p: "path_join ''/emoji'' ''hex_codes_to_delete.txt'' = ''/emoji/hex_codes_to_delete.txt''"
    by (simp add: path_join_def)
  have e: "os_path_exists ?w ''/emoji/hex_codes_to_delete.txt''"
    by (simp add: os_path_exists_def sample_world_def)
  have rd: "read_error ?w ''/emoji/hex_codes_to_delete.txt'' = None"
    by (simp add: sample_world_def)
  have n: "\<not> os_path_exists ?v ''/emoji/hex_codes_to_delete.txt''"
    by (simp add: os_path_exists_def)
  have s: "stdout ?w = []" by (simp add: sample_world_def)
  from main_exit_status [of ?w "''/emoji''" "Some ''no''"] e rd
  have 1: "fst (main ''/emoji'' (Some ''no'') ?w) = 0" by (simp add: p)
  from main_exit_status [of ?v "''/emoji''" "Some ''yes''"] n
  have 2: "main ''/emoji'' (Some ''yes'') ?v
       = (1, print ''Error: Hex codes file not found at /emoji/hex_codes_to_delete.txt'' ?v)"
    by (simp add: p)
  show ?thesis using e rd n 1 2 s by (simp add: p print_def)
qed

text \<open>
  C7. For an empty candidate list \<open>find_matching_files\<close> returns the empty list. When
  no file matches, \<open>main\<close> prints its two counts and
  \<^verbatim>\<open>No matching files found to delete.\<close>, and changes nothing else: no file is removed
  and no log is written. This is so in particular when the codes file yields no code.
\<close>

theorem no_matches_no_deletion:
  "find_matching_files w directory [] = []
   \<and> (read_hex_codes w (path_join directory ''hex_codes_to_delete.txt'') = Inr hex_codes
        \<and> find_matching_files w directory hex_codes = [] \<longrightarrow>
      main directory answer w =
        (0, w\<lparr>stdout := stdout w @
              [''Found '' @ str_nat (length hex_codes) @ '' hex codes to process'',
               ''Found 0 matching files to delete'',
               ''No matching files found to delete.'']\<rparr>)
      \<and> file_text (snd (main directory answer w)) = file_text w)
   \<and> (read_hex_codes w (path_join directory ''hex_codes_to_delete.txt'') = Inr [] \<longrightarrow>
      fst (main directory answer w) = 0
      \<and> file_text (snd (main directory answer w)) = file_text w)"
proof -
  have e: "find_matching_files w directory [] = []"
    by (simp add: find_matching_files_def)
  have "file_text (snd (main directory answer w)) = file_text w \<and> fst (main directory answer w) = 0"
    if "read_hex_codes w (path_join directory ''hex_codes_to_delete.txt'') = Inr []"
    using main_no_matches [OF that e, of answer] by simp
  moreover have "main directory answer w =
        (0, w\<lparr>stdout := stdout w @
              [''Found '' @ str_nat (length hex_codes) @ '' hex codes to process'',
               ''Found 0 matching files to delete'',
               ''No matching files found to delete.'']\<rparr>)
      \<and> file_text (snd (main directory answer w)) = file_text w"
    if "read_hex_codes w (path_join directory ''hex_codes_to_delete.txt'') = Inr hex_codes"
      "find_matching_files w directory hex_codes = []"
    using main_no_matches [OF that, of answer] by simp
  ultimately show ?thesis using e by blast
qed

theorem no_matches_no_deletion_witness:
  "read_hex_codes (sample_world ''# no codes'' [''1F600.png''] [])
       (path_join ''/emoji'' ''hex_codes_to_delete.txt'') = Inr []
   \<and> fst (main ''/emoji'' (Some ''yes'') (sample_world ''# no codes'' [''1F600.png''] [])) = 0
   \<and> file_text (snd (main ''/emoji'' (Some ''yes'') (sample_world ''# no codes'' [''1F600.png''] [])))
       = file_text (sample_world ''# no codes'' [''1F600.png''] [])"
proof -
  let ?w = "sample_world ''# no codes'' [''1F600.png''] []"
  have p: "path_join ''/emoji'' ''hex_codes_to_delete.txt'' = ''/emoji/hex_codes_to_delete.txt''"
    by (simp add: path_join_def)
  have f: "file_text ?w ''/emoji/hex_codes_to_delete.txt'' = Some ''# no codes''"
    "read_error ?w ''/emoji/hex_codes_to_delete.txt'' = None"
    by (simp_all add: sample_world_def)
  have "re_findall ''# no codes'' = []" by code_simp
  with f have r: "read_hex_codes ?w (path_join ''/emoji'' ''hex_codes_to_delete.txt'') = Inr []"
    by (simp add: read_hex_codes_def p)
  from no_matches_no_deletion [of ?w "''/emoji''" "[]" "Some ''yes''"] r show ?thesis by simp
qed

text \<open>
  C4. The test \<^verbatim>\<open>confirm.lower() == 'yes'\<close> holds for the eight spellings of yes and
  for no other answer. In a run that reaches the prompt with a non-empty match list
  and reads a line there, any other answer leaves every file as it was (nothing removed, no log written) and
  ends with \<^verbatim>\<open>Operation cancelled.\<close>; a spelling of yes goes on to the deletion: each
  matched file that can be removed is gone afterwards, and the log file exists.
\<close>

theorem main_confirmation_gate:
  "(lower answer = ''yes'' \<longleftrightarrow> answer \<in> set yes_spellings)
   \<and> (read_hex_codes w (path_join directory ''hex_codes_to_delete.txt'') = Inr hex_codes
        \<and> find_matching_files w directory hex_codes \<noteq> [] \<longrightarrow>
      (answer \<notin> set yes_spellings \<longrightarrow>
         fst (main directory (Some answer) w) = 0
         \<and> file_text (snd (main directory (Some answer) w)) = file_text w
         \<and> last (stdout (snd (main directory (Some answer) w))) = ''Operation cancelled.'')
      \<and> (answer \<in> set yes_spellings \<longrightarrow>
         (\<forall>p\<in>set (find_matching_files w directory hex_codes).
             removable w p \<longrightarrow> file_text (snd (main directory (Some answer) w)) p = None)
         \<and> file_text (snd (main directory (Some answer) w))
              (path_join directory ''deleted_files_log.txt'') \<noteq> None))"
proof -
  let ?m = "find_matching_files w directory hex_codes"
  let ?L = "path_join directory ''deleted_files_log.txt''"
  have yes: "(\<forall>p\<in>set ?m. removable w p \<longrightarrow> file_text (snd (main directory (Some answer) w)) p = None)
         \<and> file_text (snd (main directory (Some answer) w)) ?L \<noteq> None"
    if r: "read_hex_codes w (path_join directory ''hex_codes_to_delete.txt'') = Inr hex_codes"
      and m: "?m \<noteq> []" and a: "answer \<in> set yes_spellings"
  proof -
    from a have "lower answer = ''yes''" by (simp add: lower_yes_iff)
    from main_confirmed [OF r m this] obtain ds where
      ft: "\<forall>q. file_text (snd (main directory (Some answer) w)) q =
                  (if q = ?L then Some (log_text (map basename ds))
                   else if q \<in> set ?m \<and> removable w q then None
                   else file_text w q)"
      by blast
    have "p \<noteq> ?L" if "p \<in> set ?m" for p
      using that log_path_not_matched [of directory w hex_codes] by auto
    with ft show ?thesis by simp
  qed
  have no: "fst (main directory (Some answer) w) = 0
         \<and> file_text (snd (main directory (Some answer) w)) = file_text w
         \<and> last (stdout (snd (main directory (Some answer) w))) = ''Operation cancelled.''"
    if r: "read_hex_codes w (path_join directory ''hex_codes_to_delete.txt'') = Inr hex_codes"
      and m: "?m \<noteq> []" and a: "answer \<notin> set yes_spellings"
  proof -
    from a have "lower answer \<noteq> ''yes''" by (simp add: lower_yes_iff)
    from main_cancelled [OF r m this] show ?thesis .
  qed
  from yes no lower_yes_iff [of answer] show ?thesis by blast
qed

theorem main_confirmation_gate_witness:
  "read_hex_codes (sample_world ''1F600 1F601-1F3FB'' [''1F600.png'', ''other.png''] [])
       (path_join ''/emoji'' ''hex_codes_to_delete.txt'') = Inr [''1F600'', ''1F601-1F3FB'']
   \<and> find_matching_files (sample_world ''1F600 1F601-1F3FB'' [''1F600.png'', ''other.png''] [])
        ''/emoji'' [''1F600'', ''1F601-1F3FB''] = [''/emoji/1F600.png'']
   \<and> ''no'' \<notin> set yes_spellings
   \<and> file_text (snd (main ''/emoji'' (Some ''no'')
          (sample_world ''1F600 1F601-1F3FB'' [''1F600.png'', ''other.png''] [])))
       = file_text (sample_world ''1F600 1F601-1F3FB'' [''1F600.png'', ''other.png''] [])
   \<and> ''YES'' \<in> set yes_spellings
   \<and> removable (sample_world ''1F600 1F601-1F3FB'' [''1F600.png'', ''other.png''] [])
        ''/emoji/1F600.png''
   \<and> file_text (snd (main ''/emoji'' (Some ''YES'')
          (sample_world ''1F600 1F601-1F3FB'' [''1F600.png'', ''other.png''] [])))
        ''/emoji/1F600.png'' = None"
proof -
  let ?w = "sample_world ''1F600 1F601-1F3FB'' [''1F600.png'', ''other.png''] []"
  have p: "path_join ''/emoji'' ''hex_codes_to_delete.txt'' = ''/emoji/hex_codes_to_delete.txt''"
    by (simp add: path_join_def)
  have f: "file_text ?w ''/emoji/hex_codes_to_delete.txt'' = Some ''1F600 1F601-1F3FB''"
    "read_error ?w ''/emoji/hex_codes_to_delete.txt'' = None"
    by (simp_all add: sample_world_def)
  have "re_findall ''1F600 1F601-1F3FB'' = [''1F600'', ''1F601-1F3FB'']" by code_simp
  moreover have "clean_codes [''1F600'', ''1F601-1F3FB''] = [''1F600'', ''1F601-1F3FB'']"
    by code_simp
  ultimately have r: "read_hex_codes ?w (path_join ''/emoji'' ''hex_codes_to_delete.txt'')
      = Inr [''1F600'', ''1F601-1F3FB'']"
    using f by (simp add: read_hex_codes_def p)
  have m: "find_matching_files ?w ''/emoji'' [''1F600'', ''1F601-1F3FB''] = [''/emoji/1F600.png'']"
    by (simp add: find_matching_files_def os_listdir_def sample_world_def path_join_def)
  have n: "''no'' \<notin> set yes_spellings" and y: "''YES'' \<in> set yes_spellings"
    by (simp_all add: yes_spellings_def)
  have rm: "removable ?w ''/emoji/1F600.png''"
    by (simp add: removable_def sample_world_def)
  from main_confirmation_gate [of "''no''" ?w "''/emoji''" "[''1F600'', ''1F601-1F3FB'']"] r m n
  have 1: "file_text (snd (main ''/emoji'' (Some ''no'') ?w)) = file_text ?w" by simp
  from main_confirmation_gate [of "''YES''" ?w "''/emoji''" "[''1F600'', ''1F601-1F3FB'']"] r m y rm
  have 2: "file_text (snd (main ''/emoji'' (Some ''YES'') ?w)) ''/emoji/1F600.png'' = None" by simp
  from r m n y rm 1 2 show ?thesis by simp
qed



end
